theory Spec2Isabelle
  imports Complex_Main
begin

section \<open>The time-entry store\<close>

text \<open>
  The table \<open>public.time_entries\<close> of the migration. A \<open>TIMESTAMP WITH TIME ZONE\<close> is a
  count of microseconds since the epoch; a nullable column is an \<open>option\<close>. The columns
  \<open>created_at\<close> and \<open>updated_at\<close> play no part in the lifecycle and are left out.
  \<open>start_time\<close> is declared \<open>NOT NULL\<close>, but the trigger function sees the row before the
  constraint is checked and tests \<open>NEW.start_time IS NOT NULL\<close> itself, so the column is an
  option here and the constraint is a check of its own (\<open>check_not_null\<close>).
\<close>

type_synonym timestamptz = int
type_synonym uuid = string

datatype time_entry_category = Work | Study | Break | Custom

record time_entry =
  row_id :: nat
  user_id :: uuid
  project_id :: uuid
  task_id :: "uuid option"
  category :: "time_entry_category option"
  description :: "string option"
  start_time :: "timestamptz option"
  end_time :: "timestamptz option"
  duration_minutes :: "int option"
  is_running :: "bool option"

datatype db_error = not_null_violation | numeric_value_out_of_range

type_synonym db = "time_entry list"

text \<open>
  \<open>EXTRACT(EPOCH FROM (e - s)) / 60\<close> is a \<open>numeric\<close> number of minutes; assigning it to
  the \<open>INTEGER\<close> column rounds it to the nearest integer, halves away from zero.
  With both instants in microseconds the quotient is \<open>(e - s) / 60000000\<close>.
\<close>

definition epoch_minutes :: "timestamptz \<Rightarrow> timestamptz \<Rightarrow> int" where
  "epoch_minutes e s =
     (let d = e - s in
      if 0 \<le> d then (d + 30000000) div 60000000
      else - ((- d + 30000000) div 60000000))"

text \<open>A value outside the range of \<open>INTEGER\<close> is an error of the statement, not a wrap-around.\<close>

definition in_int4 :: "int \<Rightarrow> bool" where
  "in_int4 v = (- 2147483648 \<le> v \<and> v \<le> 2147483647)"

definition int4 :: "int \<Rightarrow> db_error + int" where
  "int4 v = (if in_int4 v then Inr v else Inl numeric_value_out_of_range)"

definition int4_col :: "int option \<Rightarrow> db_error + int option" where
  "int4_col c = (case c of None \<Rightarrow> Inr None
                 | Some v \<Rightarrow> (case int4 v of Inl err \<Rightarrow> Inl err | Inr w \<Rightarrow> Inr (Some w)))"

text \<open>
  The trigger function \<open>calculate_time_entry_duration\<close>, run \<open>BEFORE INSERT\<close> and
  \<open>BEFORE UPDATE\<close> of each row. \<open>OLD\<close> is \<open>None\<close> on insert, where \<open>OLD.is_running\<close> is
  \<open>NULL\<close> and the second condition is not true. The two \<open>IF\<close> blocks run one after the
  other, the second on the row the first has left.
\<close>

definition duration_if_ended :: "time_entry \<Rightarrow> db_error + time_entry" where
  "duration_if_ended NEW =
     (case (end_time NEW, start_time NEW) of
        (Some e, Some s) \<Rightarrow>
          (case int4 (epoch_minutes e s) of
             Inl err \<Rightarrow> Inl err
           | Inr m \<Rightarrow> Inr (NEW\<lparr>duration_minutes := Some m, is_running := Some False\<rparr>))
      | _ \<Rightarrow> Inr NEW)"

definition old_is_running :: "time_entry option \<Rightarrow> bool" where
  "old_is_running OLD = (case OLD of None \<Rightarrow> False | Some old \<Rightarrow> is_running old = Some True)"

definition end_now_if_stopped ::
  "timestamptz \<Rightarrow> time_entry option \<Rightarrow> time_entry \<Rightarrow> db_error + time_entry" where
  "end_now_if_stopped now OLD NEW =
     (if is_running NEW = Some False \<and> old_is_running OLD \<and> end_time NEW = None then
        (case start_time NEW of
           None \<Rightarrow> Inr (NEW\<lparr>end_time := Some now, duration_minutes := None\<rparr>)
         | Some s \<Rightarrow>
            (case int4 (epoch_minutes now s) of
               Inl err \<Rightarrow> Inl err
             | Inr m \<Rightarrow> Inr (NEW\<lparr>end_time := Some now, duration_minutes := Some m\<rparr>)))
      else Inr NEW)"

definition calculate_time_entry_duration ::
  "timestamptz \<Rightarrow> time_entry option \<Rightarrow> time_entry \<Rightarrow> db_error + time_entry" where
  "calculate_time_entry_duration now OLD NEW =
     (case duration_if_ended NEW of
        Inl err \<Rightarrow> Inl err
      | Inr NEW1 \<Rightarrow> end_now_if_stopped now OLD NEW1)"

definition check_not_null :: "time_entry \<Rightarrow> db_error + time_entry" where
  "check_not_null r = (if start_time r = None then Inl not_null_violation else Inr r)"

text \<open>
  \<open>INSERT\<close>: the value sent for \<open>duration_minutes\<close> is read as an \<open>INTEGER\<close>, the row
  gets its identity (no row is ever deleted by the application, so the number of rows
  stands for \<open>gen_random_uuid()\<close>), the trigger runs, the constraint is checked, and
  the row is stored. The result carries the stored row, as \<open>.select().single()\<close> returns it.
\<close>

definition insert_time_entry ::
  "timestamptz \<Rightarrow> time_entry \<Rightarrow> db \<Rightarrow> db_error + (time_entry \<times> db)" where
  "insert_time_entry now NEW rows =
     (case int4_col (duration_minutes NEW) of
        Inl err \<Rightarrow> Inl err
      | Inr d \<Rightarrow>
         (case calculate_time_entry_duration now None
                 (NEW\<lparr>row_id := length rows, duration_minutes := d\<rparr>) of
            Inl err \<Rightarrow> Inl err
          | Inr NEW1 \<Rightarrow>
             (case check_not_null NEW1 of
                Inl err \<Rightarrow> Inl err
              | Inr r \<Rightarrow> Inr (r, rows @ [r]))))"

text \<open>
  \<open>UPDATE ... SET\<close>: a column of the payload is \<open>None\<close> when the payload leaves it out and
  \<open>Some v\<close> when it sets it (to \<open>NULL\<close> with \<open>Some None\<close>). The columns the lifecycle
  never writes after creation (\<open>user_id\<close>, \<open>project_id\<close>, \<open>task_id\<close>) are not in the payload.
  A value sent for \<open>duration_minutes\<close> is read as an \<open>INTEGER\<close> before the trigger runs.
\<close>

record time_entry_update =
  set_category :: "time_entry_category option option"
  set_description :: "string option option"
  set_start_time :: "timestamptz option option"
  set_end_time :: "timestamptz option option"
  set_duration_minutes :: "int option option"
  set_is_running :: "bool option option"

definition no_update :: time_entry_update where
  "no_update = \<lparr>set_category = None, set_description = None, set_start_time = None,
                 set_end_time = None, set_duration_minutes = None, set_is_running = None\<rparr>"

definition assign :: "'a option \<Rightarrow> 'a \<Rightarrow> 'a" where
  "assign c v = (case c of None \<Rightarrow> v | Some w \<Rightarrow> w)"

definition apply_update :: "time_entry_update \<Rightarrow> time_entry \<Rightarrow> time_entry" where
  "apply_update u r =
     r\<lparr>category := assign (set_category u) (category r),
       description := assign (set_description u) (description r),
       start_time := assign (set_start_time u) (start_time r),
       end_time := assign (set_end_time u) (end_time r),
       duration_minutes := assign (set_duration_minutes u) (duration_minutes r),
       is_running := assign (set_is_running u) (is_running r)\<rparr>"

definition update_row :: "timestamptz \<Rightarrow> time_entry_update \<Rightarrow> time_entry \<Rightarrow> db_error + time_entry" where
  "update_row now u old =
     (case int4_col (assign (set_duration_minutes u) None) of
        Inl err \<Rightarrow> Inl err
      | Inr d \<Rightarrow>
         (case calculate_time_entry_duration now (Some old) (apply_update u old) of
            Inl err \<Rightarrow> Inl err
          | Inr NEW1 \<Rightarrow> check_not_null NEW1))"

text \<open>
  \<open>.update(u).eq('id', i)\<close>: every row with that identity is updated; an error in one row
  aborts the statement and nothing is stored. A statement that matches no row succeeds.
\<close>

fun update_time_entries ::
  "timestamptz \<Rightarrow> nat \<Rightarrow> time_entry_update \<Rightarrow> db \<Rightarrow> db_error + db" where
  "update_time_entries now i u [] = Inr []"
| "update_time_entries now i u (r # rs) =
     (case (if row_id r = i then update_row now u r else Inr r) of
        Inl err \<Rightarrow> Inl err
      | Inr r' \<Rightarrow>
         (case update_time_entries now i u rs of
            Inl err \<Rightarrow> Inl err
          | Inr rs' \<Rightarrow> Inr (r' # rs')))"

section \<open>The timer component\<close>

text \<open>
  The state of \<open>TimeTracker\<close> that the lifecycle reads and writes. The component is only
  mounted for a signed-in user (\<open>Index\<close> redirects otherwise), so the user's identity is
  an argument. A \<open>Date\<close> is a count of milliseconds; \<open>toISOString\<close> hands it to the
  store, where it is the same instant in microseconds. Each handler runs to its end
  before the next one starts; a request that fails outside the store (network,
  row-level security, foreign keys) is not modelled.
\<close>

record TimeTracker =
  activeEntry :: "time_entry option"
  selectedProject :: string
  selectedTask :: string
  description_field :: string
  elapsedTime :: int

definition TimeTracker_mount :: TimeTracker where
  "TimeTracker_mount = \<lparr>activeEntry = None, selectedProject = '''', selectedTask = '''',
                          description_field = '''', elapsedTime = 0\<rparr>"

datatype toast =
    Project_required
  | Error_starting_timer db_error
  | Timer_started
  | Error_stopping_timer db_error
  | Timer_stopped
  | Invalid_duration
  | Error_adding_time_entry db_error
  | Time_entry_added

definition toISOString :: "int \<Rightarrow> timestamptz" where
  "toISOString ms = ms * 1000"

definition or_null :: "string \<Rightarrow> string option" where
  "or_null s = (if s = '''' then None else Some s)"

text \<open>The row \<open>startTimer\<close> sends; \<open>category\<close> is left out and takes its default.\<close>

definition started_entry :: "int \<Rightarrow> uuid \<Rightarrow> TimeTracker \<Rightarrow> time_entry" where
  "started_entry date_now user st =
     \<lparr>row_id = 0, user_id = user, project_id = selectedProject st,
      task_id = or_null (selectedTask st), category = Some Work,
      description = Some (description_field st),
      start_time = Some (toISOString date_now), end_time = None,
      duration_minutes = None, is_running = Some True\<rparr>"

definition startTimer ::
  "int \<Rightarrow> timestamptz \<Rightarrow> uuid \<Rightarrow> TimeTracker \<Rightarrow> db \<Rightarrow> toast \<times> TimeTracker \<times> db" where
  "startTimer date_now now user st rows =
     (if selectedProject st = '''' then (Project_required, st, rows)
      else
        (case insert_time_entry now (started_entry date_now user st) rows of
           Inl err \<Rightarrow> (Error_starting_timer err, st, rows)
         | Inr (data, rows') \<Rightarrow> (Timer_started, st\<lparr>activeEntry := Some data\<rparr>, rows')))"

definition stop_update :: "int \<Rightarrow> string \<Rightarrow> time_entry_update" where
  "stop_update date_now d =
     no_update\<lparr>set_is_running := Some (Some False),
               set_end_time := Some (Some (toISOString date_now)),
               set_description := Some (Some d)\<rparr>"

definition stopTimer ::
  "int \<Rightarrow> timestamptz \<Rightarrow> TimeTracker \<Rightarrow> db \<Rightarrow> toast option \<times> TimeTracker \<times> db" where
  "stopTimer date_now now st rows =
     (case activeEntry st of
        None \<Rightarrow> (None, st, rows)
      | Some a \<Rightarrow>
         (case update_time_entries now (row_id a)
                 (stop_update date_now (description_field st)) rows of
            Inl err \<Rightarrow> (Some (Error_stopping_timer err), st, rows)
          | Inr rows' \<Rightarrow>
             (Some Timer_stopped,
              st\<lparr>activeEntry := None, elapsedTime := 0, description_field := ''''\<rparr>, rows')))"

text \<open>
  \<open>loadActiveTimeEntry\<close>: the rows of the user with \<open>is_running = true\<close>, asked for with
  \<open>.single()\<close>. No row and more than one row are both the error \<open>PGRST116\<close>, which the
  handler passes over in silence; exactly one row becomes the active entry.
\<close>

definition running_entries :: "uuid \<Rightarrow> db \<Rightarrow> time_entry list" where
  "running_entries user rows =
     filter (\<lambda>r. user_id r = user \<and> is_running r = Some True) rows"

definition or_empty :: "string option \<Rightarrow> string" where
  "or_empty s = (case s of None \<Rightarrow> '''' | Some t \<Rightarrow> t)"

definition loadActiveTimeEntry :: "uuid \<Rightarrow> TimeTracker \<Rightarrow> db \<Rightarrow> TimeTracker" where
  "loadActiveTimeEntry user st rows =
     (case running_entries user rows of
        [data] \<Rightarrow> st\<lparr>activeEntry := Some data, selectedProject := project_id data,
                     selectedTask := or_empty (task_id data),
                     description_field := or_empty (description data)\<rparr>
      | _ \<Rightarrow> st)"

section \<open>The manual entry form\<close>

text \<open>
  The state of \<open>ManualTimeEntry\<close>. The text fields are kept as what the handlers read
  from them: \<open>date\<close> is the instant (in milliseconds) of local midnight of the chosen day,
  \<open>startTime\<close> and \<open>endTime\<close> are the minutes after midnight that \<open>HH:MM\<close> denotes, and
  \<open>duration\<close> is the number \<open>parseFloat\<close> reads; each is \<open>None\<close> when the field is
  empty (an invalid \<open>Date\<close>, or \<open>NaN\<close>). JavaScript numbers are taken as exact real numbers,
  and a day has no change of clock in it.
\<close>

datatype entry_mode = time_range | duration_only

record ManualTimeEntry =
  mt_selectedProject :: string
  mt_selectedTask :: string
  mt_description :: string
  date :: "int option"
  startTime :: "nat option"
  endTime :: "nat option"
  duration :: "real option"
  entryMode :: entry_mode
  loading :: bool

definition new_Date :: "int option \<Rightarrow> nat option \<Rightarrow> int option" where
  "new_Date d t =
     (case (d, t) of (Some d0, Some m) \<Rightarrow> Some (d0 + 60000 * int m) | _ \<Rightarrow> None)"

text \<open>\<open>x.toFixed(2)\<close>: the nearest multiple of a hundredth, the larger one of two.\<close>

definition toFixed2 :: "real \<Rightarrow> real" where
  "toFixed2 x = of_int \<lfloor>x * 100 + 1 / 2\<rfloor> / 100"

definition Math_round :: "real \<Rightarrow> int" where
  "Math_round x = \<lfloor>x + 1 / 2\<rfloor>"

text \<open>
  \<open>new Date(t)\<close> for a number \<open>t\<close>: the fraction of a millisecond is cut off towards
  zero, and a time value beyond 8.64e15 gives an invalid \<open>Date\<close>.
\<close>

definition TimeClip :: "real \<Rightarrow> int option" where
  "TimeClip t =
     (if \<bar>t\<bar> > 8640000000000000 then None
      else Some (if 0 \<le> t then \<lfloor>t\<rfloor> else \<lceil>t\<rceil>))"

text \<open>The effect that recomputes the duration field from the two times.\<close>

definition recalc_duration :: "ManualTimeEntry \<Rightarrow> ManualTimeEntry" where
  "recalc_duration st =
     (if entryMode st = time_range \<and> startTime st \<noteq> None \<and> endTime st \<noteq> None then
        (case (new_Date (date st) (startTime st), new_Date (date st) (endTime st)) of
           (Some s, Some e) \<Rightarrow>
             if e > s then st\<lparr>duration := Some (toFixed2 (of_int (e - s) / 3600000))\<rparr>
             else st
         | _ \<Rightarrow> st)
      else st)"

text \<open>
  The first render: the defaults of the state hooks, then the effect. The setters
  below rerun the effect only when the value they set has changed, as the dependency
  list of the effect has it.
\<close>

definition ManualTimeEntry_mount :: "int \<Rightarrow> ManualTimeEntry" where
  "ManualTimeEntry_mount today =
     recalc_duration
       \<lparr>mt_selectedProject = '''', mt_selectedTask = '''', mt_description = '''',
        date = Some today, startTime = Some 540, endTime = Some 600, duration = None,
        entryMode = time_range, loading = False\<rparr>"

definition setSelectedProject :: "string \<Rightarrow> ManualTimeEntry \<Rightarrow> ManualTimeEntry" where
  "setSelectedProject v st = st\<lparr>mt_selectedProject := v\<rparr>"

definition setDate :: "int option \<Rightarrow> ManualTimeEntry \<Rightarrow> ManualTimeEntry" where
  "setDate v st = (if date st = v then st else recalc_duration (st\<lparr>date := v\<rparr>))"

definition setStartTime :: "nat option \<Rightarrow> ManualTimeEntry \<Rightarrow> ManualTimeEntry" where
  "setStartTime v st = (if startTime st = v then st else recalc_duration (st\<lparr>startTime := v\<rparr>))"

definition setEndTime :: "nat option \<Rightarrow> ManualTimeEntry \<Rightarrow> ManualTimeEntry" where
  "setEndTime v st = (if endTime st = v then st else recalc_duration (st\<lparr>endTime := v\<rparr>))"

definition setEntryMode :: "entry_mode \<Rightarrow> ManualTimeEntry \<Rightarrow> ManualTimeEntry" where
  "setEntryMode v st = (if entryMode st = v then st else recalc_duration (st\<lparr>entryMode := v\<rparr>))"

definition setDuration :: "real option \<Rightarrow> ManualTimeEntry \<Rightarrow> ManualTimeEntry" where
  "setDuration v st = st\<lparr>duration := v\<rparr>"

definition reset_form :: "ManualTimeEntry \<Rightarrow> ManualTimeEntry" where
  "reset_form st =
     (let st1 = st\<lparr>mt_description := '''', duration := None, startTime := Some 540,
                   endTime := Some 600, mt_selectedTask := '''', loading := False\<rparr>
      in if startTime st = Some 540 \<and> endTime st = Some 600 then st1
         else recalc_duration st1)"

datatype submit_outcome = Toast toast | RangeError


text \<open>
  \<open>handleSubmit\<close>. \<open>toISOString\<close> of an invalid \<open>Date\<close> throws a \<open>RangeError\<close>: the
  handler stops there, after \<open>setLoading(true)\<close> and before the request.
\<close>

definition startDateTime :: "ManualTimeEntry \<Rightarrow> int option" where
  "startDateTime st =
     (if entryMode st = time_range then new_Date (date st) (startTime st)
      else new_Date (date st) (Some 540))"

definition endDateTime :: "ManualTimeEntry \<Rightarrow> real \<Rightarrow> int option" where
  "endDateTime st durationMinutes =
     (if entryMode st = time_range then new_Date (date st) (endTime st)
      else (case startDateTime st of
              None \<Rightarrow> None
            | Some s \<Rightarrow> TimeClip (of_int s + durationMinutes * 60 * 1000)))"

definition manual_entry :: "uuid \<Rightarrow> ManualTimeEntry \<Rightarrow> int \<Rightarrow> int \<Rightarrow> real \<Rightarrow> time_entry" where
  "manual_entry user st s e durationMinutes =
     \<lparr>row_id = 0, user_id = user, project_id = mt_selectedProject st,
      task_id = or_null (mt_selectedTask st), category = Some Work,
      description = Some (mt_description st),
      start_time = Some (toISOString s), end_time = Some (toISOString e),
      duration_minutes = Some (Math_round durationMinutes), is_running = Some False\<rparr>"

definition handleSubmit ::
  "timestamptz \<Rightarrow> uuid \<Rightarrow> ManualTimeEntry \<Rightarrow> db \<Rightarrow> submit_outcome \<times> ManualTimeEntry \<times> db" where
  "handleSubmit now user st rows =
     (if mt_selectedProject st = '''' then (Toast Project_required, st, rows)
      else
        (case duration st of
           None \<Rightarrow> (Toast Invalid_duration, st, rows)
         | Some h \<Rightarrow>
            (let durationMinutes = h * 60 in
             if durationMinutes \<le> 0 then (Toast Invalid_duration, st, rows)
             else
               (case (startDateTime st, endDateTime st durationMinutes) of
                  (Some s, Some e) \<Rightarrow>
                    (case insert_time_entry now (manual_entry user st s e durationMinutes) rows of
                       Inl err \<Rightarrow> (Toast (Error_adding_time_entry err), st\<lparr>loading := False\<rparr>, rows)
                     | Inr (data, rows') \<Rightarrow> (Toast Time_entry_added, reset_form st, rows'))
                | _ \<Rightarrow> (RangeError, st\<lparr>loading := True\<rparr>, rows)))))"

section \<open>Reports and dashboard totals\<close>

text \<open>
  \<open>Reports.loadTimeEntries\<close>: the query for the rows of the user that start in the date
  range and whose \<open>duration_minutes\<close> is not \<open>NULL\<close>, newest first, narrowed to one
  project unless the filter is \<open>all\<close>. The embedded \<open>projects (name, color)\<close> and
  \<open>tasks (title)\<close> are looked up through the two tables, given as functions; the
  formatting of a date is a function as well. Both ends of the date range are set
  (the handler returns at once otherwise). Rows that start at the same instant keep
  the order of the store.
\<close>

definition starts_from :: "timestamptz \<Rightarrow> time_entry \<Rightarrow> bool" where
  "starts_from t r = (case start_time r of None \<Rightarrow> False | Some s \<Rightarrow> t \<le> s)"

definition starts_until :: "timestamptz \<Rightarrow> time_entry \<Rightarrow> bool" where
  "starts_until t r = (case start_time r of None \<Rightarrow> False | Some s \<Rightarrow> s \<le> t)"

definition newest_first :: "time_entry list \<Rightarrow> time_entry list" where
  "newest_first rs = sort_key (\<lambda>r. case start_time r of None \<Rightarrow> 0 | Some s \<Rightarrow> - s) rs"

definition loadTimeEntries ::
  "uuid \<Rightarrow> int \<Rightarrow> int \<Rightarrow> string \<Rightarrow> db \<Rightarrow> time_entry list" where
  "loadTimeEntries user date_from date_to project rows =
     filter (\<lambda>r. project = ''all'' \<or> project_id r = project)
       (newest_first
          (filter (\<lambda>r. user_id r = user
                       \<and> starts_from (toISOString date_from) r
                       \<and> starts_until (toISOString date_to) r
                       \<and> duration_minutes r \<noteq> None) rows))"

text \<open>\<open>entry.duration_minutes || 0\<close>\<close>

definition or_zero :: "int option \<Rightarrow> int" where
  "or_zero d = (case d of None \<Rightarrow> 0 | Some m \<Rightarrow> m)"

definition getTotalHours :: "time_entry list \<Rightarrow> real" where
  "getTotalHours timeEntries =
     foldl (\<lambda>total entry. total + of_int (or_zero (duration_minutes entry)) / 60) 0 timeEntries"

record ChartData =
  name :: string
  hours :: real
  color :: string

text \<open>
  The accumulator of the two \<open>reduce\<close> calls is an object used as a dictionary: a list
  of keys with their values, in the order the keys were first seen (a key that reads
  as an array index, which \<open>Object.values\<close> would list first, is not told apart).
  \<open>exportToCsv\<close> is followed up to its list of rows, with the duration of a row as
  the number that is printed.
\<close>

fun add_hours :: "string \<Rightarrow> string \<Rightarrow> real \<Rightarrow> (string \<times> ChartData) list \<Rightarrow> (string \<times> ChartData) list" where
  "add_hours k c h [] = [(k, \<lparr>name = k, hours = 0 + h, color = c\<rparr>)]"
| "add_hours k c h ((k', v) # acc) =
     (if k' = k then (k', v\<lparr>hours := hours v + h\<rparr>) # acc
      else (k', v) # add_hours k c h acc)"

definition color_or_default :: "string option \<Rightarrow> string" where
  "color_or_default c = (case c of None \<Rightarrow> ''#3B82F6'' | Some x \<Rightarrow> if x = '''' then ''#3B82F6'' else x)"

definition getProjectChartData ::
  "(uuid \<Rightarrow> string \<times> string option) \<Rightarrow> time_entry list \<Rightarrow> ChartData list" where
  "getProjectChartData projects timeEntries =
     sort_key (\<lambda>c. - hours c)
       (map snd
          (foldl (\<lambda>acc entry.
                    add_hours (fst (projects (project_id entry)))
                      (color_or_default (snd (projects (project_id entry))))
                      (of_int (or_zero (duration_minutes entry)) / 60) acc)
             [] timeEntries))"

definition format_start :: "(timestamptz \<Rightarrow> string) \<Rightarrow> time_entry \<Rightarrow> string" where
  "format_start fmt entry = (case start_time entry of None \<Rightarrow> '''' | Some s \<Rightarrow> fmt s)"

definition getDailyChartData ::
  "(timestamptz \<Rightarrow> string) \<Rightarrow> time_entry list \<Rightarrow> ChartData list" where
  "getDailyChartData fmt timeEntries =
     map snd
       (foldl (\<lambda>acc entry.
                 add_hours (format_start fmt entry) ''hsl(var(--primary))''
                   (of_int (or_zero (duration_minutes entry)) / 60) acc)
          [] timeEntries)"

record csv_row =
  csv_Date :: string
  csv_Project :: string
  csv_Task :: string
  csv_Duration :: real
  csv_Description :: string

definition exportToCsv ::
  "(timestamptz \<Rightarrow> string) \<Rightarrow> (uuid \<Rightarrow> string \<times> string option) \<Rightarrow> (uuid \<Rightarrow> string)
     \<Rightarrow> time_entry list \<Rightarrow> csv_row list" where
  "exportToCsv fmt projects tasks timeEntries =
     map (\<lambda>entry.
            \<lparr>csv_Date = format_start fmt entry,
             csv_Project = fst (projects (project_id entry)),
             csv_Task = (case task_id entry of None \<Rightarrow> ''No task''
                         | Some t \<Rightarrow> if tasks t = '''' then ''No task'' else tasks t),
             csv_Duration = toFixed2 (of_int (or_zero (duration_minutes entry)) / 60),
             csv_Description = or_empty (description entry)\<rparr>)
       timeEntries"

text \<open>
  \<open>DashboardStats.loadStats\<close>: the two queries for today's and this week's rows, and
  the hours summed from them.
\<close>

definition stats_entries :: "uuid \<Rightarrow> int \<Rightarrow> db \<Rightarrow> time_entry list" where
  "stats_entries user since rows =
     filter (\<lambda>r. user_id r = user \<and> starts_from (toISOString since) r
                  \<and> duration_minutes r \<noteq> None) rows"

definition stats_hours :: "time_entry list \<Rightarrow> real" where
  "stats_hours entries =
     of_int (foldl (\<lambda>acc entry. acc + or_zero (duration_minutes entry)) 0 entries) / 60"

definition loadStats :: "uuid \<Rightarrow> int \<Rightarrow> int \<Rightarrow> db \<Rightarrow> real \<times> real" where
  "loadStats user startOfDay startOfWeek rows =
     (stats_hours (stats_entries user startOfDay rows),
      stats_hours (stats_entries user startOfWeek rows))"

section \<open>Invariants and reachable states\<close>

text \<open>The two states of an entry, and the invariants I1 and I4 of the specification.\<close>

definition open_entry :: "time_entry \<Rightarrow> bool" where
  "open_entry r = (is_running r = Some True \<and> end_time r = None \<and> duration_minutes r = None)"

definition closed_entry :: "time_entry \<Rightarrow> bool" where
  "closed_entry r =
     (is_running r = Some False \<and>
      (case (end_time r, start_time r) of
         (Some e, Some s) \<Rightarrow> duration_minutes r = Some (epoch_minutes e s)
       | _ \<Rightarrow> False))"

definition I1 :: "time_entry \<Rightarrow> bool" where
  "I1 r = (is_running r = Some True \<longrightarrow> end_time r = None \<and> duration_minutes r = None)"

definition I4 :: "db \<Rightarrow> bool" where
  "I4 rows = list_all (\<lambda>r. length (running_entries (user_id r) rows) \<le> 1) rows"

definition row_ok :: "time_entry \<Rightarrow> bool" where
  "row_ok r =
     (start_time r \<noteq> None \<and> (open_entry r \<or> closed_entry r) \<and>
      (case duration_minutes r of None \<Rightarrow> True | Some m \<Rightarrow> in_int4 m))"

definition well_formed :: "db \<Rightarrow> bool" where
  "well_formed rows = (map row_id rows = [0 ..< length rows] \<and> list_all row_ok rows)"

definition lookup :: "nat \<Rightarrow> db \<Rightarrow> time_entry option" where
  "lookup i rows = find (\<lambda>r. row_id r = i) rows"

text \<open>
  An edit of the description or the category, and a close that sets \<open>is_running\<close> to
  false and supplies no end: the two updates of the lifecycle that the components do
  not issue themselves.
\<close>

definition edit_update :: "string option option \<Rightarrow> time_entry_category option option \<Rightarrow> time_entry_update" where
  "edit_update d c = no_update\<lparr>set_description := d, set_category := c\<rparr>"

definition close_update :: time_entry_update where
  "close_update = no_update\<lparr>set_is_running := Some (Some False)\<rparr>"

text \<open>The updates that write none of the derived columns and never set an entry running.\<close>

definition lifecycle_update :: "time_entry_update \<Rightarrow> bool" where
  "lifecycle_update u =
     (set_start_time u = None \<and> set_duration_minutes u = None \<and> set_end_time u \<noteq> Some None \<and>
      (set_is_running u = None \<or> set_is_running u = Some (Some False)))"

text \<open>How one row of the store stands to the same row after \<open>update_time_entries\<close>.\<close>

definition row_updated ::
  "timestamptz \<Rightarrow> nat \<Rightarrow> time_entry_update \<Rightarrow> time_entry \<Rightarrow> time_entry \<Rightarrow> bool" where
  "row_updated now i u x y = (if row_id x = i then update_row now u x = Inr y else y = x)"

text \<open>
  The stores the lifecycle operations can produce from the empty store. The state of
  the component that issues an operation is left free, so every store that some
  sequence of mounted components can produce is among them.
\<close>

inductive_set reachable :: "db set" where
  init: "[] \<in> reachable"
| start: "rows \<in> reachable \<Longrightarrow> startTimer date_now now user st rows = (t, st', rows')
           \<Longrightarrow> rows' \<in> reachable"
| stop: "rows \<in> reachable \<Longrightarrow> stopTimer date_now now st rows = (t', st', rows')
           \<Longrightarrow> rows' \<in> reachable"
| recordManual: "rows \<in> reachable \<Longrightarrow> handleSubmit now user form rows = (out, form', rows')
           \<Longrightarrow> rows' \<in> reachable"
| edit: "rows \<in> reachable \<Longrightarrow> update_time_entries now i (edit_update d c) rows = Inr rows'
           \<Longrightarrow> rows' \<in> reachable"
| close: "rows \<in> reachable \<Longrightarrow> update_time_entries now i close_update rows = Inr rows'
           \<Longrightarrow> rows' \<in> reachable"

text \<open>
  The states of the manual entry form that its events can produce. The duration field
  is only on screen, and so only typed into, in the duration-only mode.
\<close>

inductive_set form_states :: "ManualTimeEntry set" where
  mount: "ManualTimeEntry_mount today \<in> form_states"
| project: "st \<in> form_states \<Longrightarrow> setSelectedProject v st \<in> form_states"
| task: "st \<in> form_states \<Longrightarrow> st\<lparr>mt_selectedTask := v\<rparr> \<in> form_states"
| describe: "st \<in> form_states \<Longrightarrow> st\<lparr>mt_description := v\<rparr> \<in> form_states"
| pick_date: "st \<in> form_states \<Longrightarrow> setDate v st \<in> form_states"
| pick_start: "st \<in> form_states \<Longrightarrow> setStartTime v st \<in> form_states"
| pick_end: "st \<in> form_states \<Longrightarrow> setEndTime v st \<in> form_states"
| mode: "st \<in> form_states \<Longrightarrow> setEntryMode v st \<in> form_states"
| type_duration: "st \<in> form_states \<Longrightarrow> entryMode st = duration_only
           \<Longrightarrow> setDuration v st \<in> form_states"
| submit: "st \<in> form_states \<Longrightarrow> handleSubmit now user st rows = (out, st', rows')
           \<Longrightarrow> st' \<in> form_states"

definition demo_tracker :: TimeTracker where
  "demo_tracker = TimeTracker_mount\<lparr>selectedProject := ''p1''\<rparr>"

definition demo_running :: time_entry where
  "demo_running =
     \<lparr>row_id = 0, user_id = ''u1'', project_id = ''p1'', task_id = None, category = Some Work,
      description = Some '''', start_time = Some 60000000, end_time = None,
      duration_minutes = None, is_running = Some True\<rparr>"

definition demo_active :: TimeTracker where
  "demo_active = demo_tracker\<lparr>activeEntry := Some demo_running\<rparr>"

definition demo_stopped_early :: time_entry where
  "demo_stopped_early =
     \<lparr>row_id = 0, user_id = ''u1'', project_id = ''p1'', task_id = None, category = Some Work,
      description = Some '''', start_time = Some 60000000, end_time = Some 0,
      duration_minutes = Some (- 1), is_running = Some False\<rparr>"

definition demo_stopped :: time_entry where
  "demo_stopped =
     \<lparr>row_id = 0, user_id = ''u1'', project_id = ''p1'', task_id = None, category = Some Work,
      description = Some '''', start_time = Some 60000000, end_time = Some 5460000000,
      duration_minutes = Some 90, is_running = Some False\<rparr>"

definition demo_second :: time_entry where
  "demo_second =
     \<lparr>row_id = 1, user_id = ''u1'', project_id = ''p1'', task_id = None, category = Some Work,
      description = Some '''', start_time = Some 120000000, end_time = None,
      duration_minutes = None, is_running = Some True\<rparr>"

text \<open>
  The stores the lifecycle operations produce when every start is issued while its
  owner has no running entry in the store.
\<close>

inductive_set one_timer :: "db set" where
  init: "[] \<in> one_timer"
| start: "rows \<in> one_timer \<Longrightarrow> running_entries user rows = []
           \<Longrightarrow> startTimer date_now now user st rows = (t, st', rows')
           \<Longrightarrow> rows' \<in> one_timer"
| stop: "rows \<in> one_timer \<Longrightarrow> stopTimer date_now now st rows = (t', st', rows')
           \<Longrightarrow> rows' \<in> one_timer"
| recordManual: "rows \<in> one_timer \<Longrightarrow> handleSubmit now user form rows = (out, form', rows')
           \<Longrightarrow> rows' \<in> one_timer"
| edit: "rows \<in> one_timer \<Longrightarrow> update_time_entries now i (edit_update d c) rows = Inr rows'
           \<Longrightarrow> rows' \<in> one_timer"
| close: "rows \<in> one_timer \<Longrightarrow> update_time_entries now i close_update rows = Inr rows'
           \<Longrightarrow> rows' \<in> one_timer"


definition demo_form :: ManualTimeEntry where
  "demo_form = setEndTime (Some 585) (setSelectedProject ''p1'' (ManualTimeEntry_mount 0))"


definition demo_form_backwards :: ManualTimeEntry where
  "demo_form_backwards =
     setEndTime (Some 480) (setSelectedProject ''p1'' (ManualTimeEntry_mount 0))"

definition demo_backwards :: time_entry where
  "demo_backwards =
     \<lparr>row_id = 0, user_id = ''u1'', project_id = ''p1'', task_id = None, category = Some Work,
      description = Some '''', start_time = Some 32400000000, end_time = Some 28800000000,
      duration_minutes = Some (- 60), is_running = Some False\<rparr>"

definition demo_form_equal :: ManualTimeEntry where
  "demo_form_equal =
     setEndTime (Some 540) (setSelectedProject ''p1'' (ManualTimeEntry_mount 0))"


definition demo_form_1969 :: ManualTimeEntry where
  "demo_form_1969 =
     setDuration (Some (83332 / 10000000))
       (setEntryMode duration_only
          (setDate (Some (- 86400000))
             (setSelectedProject ''p1'' (ManualTimeEntry_mount 0))))"


section \<open>The trigger, inserts and updates\<close>

lemma insert_running_row:
  assumes "end_time NEW = None" and "is_running NEW = Some True"
    and "duration_minutes NEW = None" and "start_time NEW = Some s"
  shows "insert_time_entry now NEW rows =
           Inr (NEW\<lparr>row_id := length rows\<rparr>, rows @ [NEW\<lparr>row_id := length rows\<rparr>])"
  using assms
  by (simp add: insert_time_entry_def int4_col_def calculate_time_entry_duration_def
      duration_if_ended_def end_now_if_stopped_def check_not_null_def)

lemma trigger_ended:
  assumes "end_time NEW = Some e" "start_time NEW = Some s"
  shows "calculate_time_entry_duration now OLD NEW =
           (if in_int4 (epoch_minutes e s)
            then Inr (NEW\<lparr>duration_minutes := Some (epoch_minutes e s), is_running := Some False\<rparr>)
            else Inl numeric_value_out_of_range)"
  using assms
  by (simp add: calculate_time_entry_duration_def duration_if_ended_def end_now_if_stopped_def int4_def)

lemma trigger_stopped:
  assumes "end_time NEW = None" "is_running NEW = Some False" "old_is_running OLD"
    "start_time NEW = Some s"
  shows "calculate_time_entry_duration now OLD NEW =
           (if in_int4 (epoch_minutes now s)
            then Inr (NEW\<lparr>end_time := Some now, duration_minutes := Some (epoch_minutes now s)\<rparr>)
            else Inl numeric_value_out_of_range)"
  using assms
  by (simp add: calculate_time_entry_duration_def duration_if_ended_def end_now_if_stopped_def int4_def)

lemma trigger_untouched:
  assumes "end_time NEW = None" "\<not> (is_running NEW = Some False \<and> old_is_running OLD)"
  shows "calculate_time_entry_duration now OLD NEW = Inr NEW"
  using assms
  by (auto simp add: calculate_time_entry_duration_def duration_if_ended_def end_now_if_stopped_def)

lemma trigger_no_start:
  assumes "start_time NEW = None"
  shows "\<exists>r. calculate_time_entry_duration now OLD NEW = Inr r \<and> start_time r = None"
  using assms
  by (cases "end_time NEW")
     (simp_all add: calculate_time_entry_duration_def duration_if_ended_def end_now_if_stopped_def)

lemma apply_update_fields:
  "row_id (apply_update u r) = row_id r"
  "user_id (apply_update u r) = user_id r"
  "project_id (apply_update u r) = project_id r"
  "task_id (apply_update u r) = task_id r"
  "category (apply_update u r) = assign (set_category u) (category r)"
  "description (apply_update u r) = assign (set_description u) (description r)"
  "start_time (apply_update u r) = assign (set_start_time u) (start_time r)"
  "end_time (apply_update u r) = assign (set_end_time u) (end_time r)"
  "duration_minutes (apply_update u r) = assign (set_duration_minutes u) (duration_minutes r)"
  "is_running (apply_update u r) = assign (set_is_running u) (is_running r)"
  by (simp_all add: apply_update_def)

lemma assign_simps: "assign None v = v" "assign (Some w) v = w"
  by (simp_all add: assign_def)

lemma update_row_lifecycle:
  assumes "lifecycle_update u"
  shows "update_row now u old =
           (case calculate_time_entry_duration now (Some old) (apply_update u old) of
              Inl err \<Rightarrow> Inl err | Inr r \<Rightarrow> check_not_null r)"
  using assms by (simp add: update_row_def lifecycle_update_def int4_col_def assign_simps)

lemma closed_entryI:
  assumes "is_running r = Some False" "end_time r = Some e" "start_time r = Some s"
    "duration_minutes r = Some (epoch_minutes e s)"
  shows "closed_entry r"
  using assms by (simp add: closed_entry_def)

lemma closed_entryD:
  assumes "closed_entry r"
  obtains e s where "is_running r = Some False" "end_time r = Some e" "start_time r = Some s"
    "duration_minutes r = Some (epoch_minutes e s)"
  using assms by (auto simp: closed_entry_def split: option.splits)

text \<open>What an update of the lifecycle makes of a well-formed row.\<close>

lemma update_row_cases:
  assumes u: "lifecycle_update u" and ok: "row_ok old" and s: "start_time old = Some s"
  shows "update_row now u old =
     (case end_time (apply_update u old) of
        Some e \<Rightarrow>
          if in_int4 (epoch_minutes e s)
          then Inr ((apply_update u old)\<lparr>duration_minutes := Some (epoch_minutes e s),
                                        is_running := Some False\<rparr>)
          else Inl numeric_value_out_of_range
      | None \<Rightarrow>
          if set_is_running u = None then Inr (apply_update u old)
          else if in_int4 (epoch_minutes now s)
          then Inr ((apply_update u old)\<lparr>end_time := Some now,
                                        duration_minutes := Some (epoch_minutes now s)\<rparr>)
          else Inl numeric_value_out_of_range)"
proof -
  let ?NEW = "apply_update u old"
  have start: "start_time ?NEW = Some s"
    using u s by (simp add: apply_update_fields lifecycle_update_def assign_simps)
  show ?thesis
  proof (cases "end_time ?NEW")
    case (Some e)
    show ?thesis
      by (simp add: update_row_lifecycle[OF u] trigger_ended[OF Some start] Some check_not_null_def start)
  next
    case None
    then have "end_time old = None"
      using u by (cases "set_end_time u") (auto simp: apply_update_fields lifecycle_update_def assign_simps)
    with ok have run: "is_running old = Some True"
      by (auto simp: row_ok_def open_entry_def elim: closed_entryD)
    show ?thesis
    proof (cases "set_is_running u = None")
      case True
      then have "is_running ?NEW = Some True"
        using run by (simp add: apply_update_fields assign_simps)
      then have "calculate_time_entry_duration now (Some old) ?NEW = Inr ?NEW"
        using None by (intro trigger_untouched) auto
      then show ?thesis
        using None True start by (simp add: update_row_lifecycle[OF u] check_not_null_def)
    next
      case False
      then have "is_running ?NEW = Some False"
        using u by (auto simp: apply_update_fields lifecycle_update_def assign_simps)
      from trigger_stopped[OF None this _ start, of "Some old" now] run
      show ?thesis
        using None False start
        by (auto simp add: update_row_lifecycle[OF u] check_not_null_def old_is_running_def)
    qed
  qed
qed


lemma update_row_row_id:
  assumes "update_row now u old = Inr r" "lifecycle_update u" "row_ok old"
  shows "row_id r = row_id old \<and> user_id r = user_id old"
proof -
  obtain s where s: "start_time old = Some s"
    using assms(3) by (auto simp: row_ok_def)
  show ?thesis
    using assms(1) unfolding update_row_cases[OF assms(2,3) s]
    by (auto simp: apply_update_fields split: option.splits if_splits)
qed

lemma update_row_ok:
  assumes "update_row now u old = Inr r" "lifecycle_update u" "row_ok old"
  shows "row_ok r"
proof -
  obtain s where s: "start_time old = Some s"
    using assms(3) by (auto simp: row_ok_def)
  have start: "start_time (apply_update u old) = Some s"
    using assms(2) s by (simp add: apply_update_fields lifecycle_update_def assign_simps)
  have dur: "duration_minutes (apply_update u old) = duration_minutes old"
    using assms(2) by (simp add: apply_update_fields lifecycle_update_def assign_simps)
  show ?thesis
  proof (cases "end_time (apply_update u old)")
    case (Some e)
    with assms(1) have "in_int4 (epoch_minutes e s)" and
      r: "r = (apply_update u old)\<lparr>duration_minutes := Some (epoch_minutes e s), is_running := Some False\<rparr>"
      unfolding update_row_cases[OF assms(2,3) s] by (auto split: if_splits)
    then show ?thesis
      using Some start by (simp add: row_ok_def closed_entry_def)
  next
    case None
    then have "end_time old = None"
      using assms(2) by (cases "set_end_time u") (auto simp: apply_update_fields lifecycle_update_def assign_simps)
    with assms(3) have op: "open_entry old"
      by (auto simp: row_ok_def elim: closed_entryD)
    show ?thesis
    proof (cases "set_is_running u = None")
      case True
      with assms(1) None have "r = apply_update u old"
        unfolding update_row_cases[OF assms(2,3) s] by simp
      then show ?thesis
        using op None start dur True
        by (simp add: row_ok_def open_entry_def apply_update_fields assign_simps)
    next
      case False
      with assms(1) None have "in_int4 (epoch_minutes now s)" and
        r: "r = (apply_update u old)\<lparr>end_time := Some now, duration_minutes := Some (epoch_minutes now s)\<rparr>"
        unfolding update_row_cases[OF assms(2,3) s] by (auto split: if_splits)
      moreover have "is_running (apply_update u old) = Some False"
        using False assms(2) by (auto simp: apply_update_fields lifecycle_update_def assign_simps)
      ultimately show ?thesis
        using start by (simp add: row_ok_def closed_entry_def)
    qed
  qed
qed

lemma update_row_running:
  assumes "update_row now u old = Inr r" "lifecycle_update u" "row_ok old" "is_running r = Some True"
  shows "is_running old = Some True"
proof -
  obtain s where s: "start_time old = Some s"
    using assms(3) by (auto simp: row_ok_def)
  have "is_running (apply_update u old) = Some True \<Longrightarrow> is_running old = Some True"
    using assms(2) by (auto simp: apply_update_fields lifecycle_update_def assign_simps)
  then show ?thesis
    using assms(1,4) unfolding update_row_cases[OF assms(2,3) s]
    by (auto split: option.splits if_splits)
qed


lemma update_time_entries_map:
  assumes "\<And>x. x \<in> set rows \<Longrightarrow> row_id x = i \<Longrightarrow> update_row now u x = Inr (f x)"
  shows "update_time_entries now i u rows = Inr (map (\<lambda>x. if row_id x = i then f x else x) rows)"
  using assms by (induction rows) auto

lemma update_time_entries_all:
  assumes "update_time_entries now i u rows = Inr rows'"
  shows "list_all2 (row_updated now i u) rows rows'"
  using assms
proof (induction rows arbitrary: rows')
  case Nil
  then show ?case by simp
next
  case (Cons r rs)
  from Cons.prems obtain r' rs' where
    r': "(if row_id r = i then update_row now u r else Inr r) = Inr r'"
    and rs': "update_time_entries now i u rs = Inr rs'" and eq: "rows' = r' # rs'"
    by (auto split: sum.splits)
  have "row_updated now i u r r'"
    using r' by (auto simp: row_updated_def split: if_splits)
  with Cons.IH[OF rs'] eq show ?case by simp
qed

lemma row_updated_keeps:
  assumes "row_updated now i u x y" "lifecycle_update u" "row_ok x"
  shows "row_id y = row_id x" "user_id y = user_id x" "row_ok y"
    "is_running y = Some True \<Longrightarrow> is_running x = Some True"
  using assms update_row_row_id[of now u x y] update_row_ok[of now u x y]
    update_row_running[of now u x y]
  by (auto simp: row_updated_def split: if_splits)

lemma update_time_entries_keeps:
  assumes "update_time_entries now i u rows = Inr rows'" "lifecycle_update u" "list_all row_ok rows"
  shows "map row_id rows' = map row_id rows \<and> list_all row_ok rows' \<and> length rows' = length rows"
proof -
  have "list_all2 (row_updated now i u) rows rows'"
    by (rule update_time_entries_all[OF assms(1)])
  then show ?thesis using assms(3)
  proof (induction rule: list_all2_induct)
    case Nil
    then show ?case by simp
  next
    case (Cons x xs y ys)
    then show ?case
      using row_updated_keeps(1,3)[OF Cons.hyps(1) assms(2)] by simp
  qed
qed

lemma update_time_entries_well_formed:
  assumes "update_time_entries now i u rows = Inr rows'" "lifecycle_update u" "well_formed rows"
  shows "well_formed rows'"
  using update_time_entries_keeps[OF assms(1,2)] assms(3)
  by (simp add: well_formed_def)


lemma insert_ended_row:
  assumes "end_time NEW = Some e" "start_time NEW = Some s" "duration_minutes NEW = Some d"
  shows "insert_time_entry now NEW rows =
     (if in_int4 d \<and> in_int4 (epoch_minutes e s)
      then Inr (NEW\<lparr>row_id := length rows, duration_minutes := Some (epoch_minutes e s),
                     is_running := Some False\<rparr>,
                rows @ [NEW\<lparr>row_id := length rows, duration_minutes := Some (epoch_minutes e s),
                            is_running := Some False\<rparr>])
      else Inl numeric_value_out_of_range)"
proof -
  let ?N = "NEW\<lparr>row_id := length rows, duration_minutes := Some d\<rparr>"
  have "calculate_time_entry_duration now None ?N =
          (if in_int4 (epoch_minutes e s)
           then Inr (?N\<lparr>duration_minutes := Some (epoch_minutes e s), is_running := Some False\<rparr>)
           else Inl numeric_value_out_of_range)"
    by (rule trigger_ended) (simp_all add: assms)
  then show ?thesis
    using assms by (simp add: insert_time_entry_def int4_col_def int4_def check_not_null_def)
qed

lemma well_formed_snoc:
  assumes "well_formed rows" "row_ok data" "row_id data = length rows"
  shows "well_formed (rows @ [data])"
  using assms by (simp add: well_formed_def)

lemma startTimer_rows:
  assumes "startTimer date_now now user st rows = (t, st', rows')"
  shows "rows' = rows \<or> rows' = rows @ [(started_entry date_now user st)\<lparr>row_id := length rows\<rparr>]"
proof (cases "selectedProject st = ''''")
  case True
  with assms show ?thesis by (simp add: startTimer_def)
next
  case False
  have "insert_time_entry now (started_entry date_now user st) rows =
          Inr ((started_entry date_now user st)\<lparr>row_id := length rows\<rparr>,
               rows @ [(started_entry date_now user st)\<lparr>row_id := length rows\<rparr>])"
    by (rule insert_running_row) (simp_all add: started_entry_def)
  with assms False show ?thesis by (auto simp: startTimer_def)
qed

lemma started_entry_open:
  "open_entry ((started_entry date_now user st)\<lparr>row_id := n\<rparr>)"
  "row_ok ((started_entry date_now user st)\<lparr>row_id := n\<rparr>)"
  by (simp_all add: started_entry_def open_entry_def row_ok_def)

lemma startTimer_well_formed:
  assumes "startTimer date_now now user st rows = (t, st', rows')" "well_formed rows"
  shows "well_formed rows'"
  using startTimer_rows[OF assms(1)] assms(2)
  by (auto intro: well_formed_snoc started_entry_open)

lemma lifecycle_updates:
  "lifecycle_update (stop_update t d)" "lifecycle_update (edit_update dd c)" "lifecycle_update close_update"
  by (simp_all add: lifecycle_update_def stop_update_def edit_update_def close_update_def no_update_def)

lemma stopTimer_rows:
  assumes "stopTimer date_now now st rows = (t, st', rows')"
  shows "rows' = rows \<or>
         (\<exists>a. activeEntry st = Some a \<and>
              update_time_entries now (row_id a) (stop_update date_now (description_field st)) rows = Inr rows')"
  using assms by (auto simp: stopTimer_def split: option.splits sum.splits)

lemma stopTimer_well_formed:
  assumes "stopTimer date_now now st rows = (t, st', rows')" "well_formed rows"
  shows "well_formed rows'"
  using stopTimer_rows[OF assms(1)] assms(2)
  by (auto intro: update_time_entries_well_formed lifecycle_updates)

lemma handleSubmit_rows:
  assumes "handleSubmit now user st rows = (out, st', rows')"
  shows "rows' = rows \<or>
         (\<exists>s e h data. insert_time_entry now (manual_entry user st s e h) rows = Inr (data, rows'))"
  using assms
  by (auto simp: handleSubmit_def Let_def split: option.splits sum.splits if_splits)

lemma manual_entry_inserted:
  assumes "insert_time_entry now (manual_entry user st s e h) rows = Inr (data, rows')"
  shows "rows' = rows @ [data] \<and> row_id data = length rows \<and> closed_entry data \<and> row_ok data
         \<and> user_id data = user"
proof -
  have "insert_time_entry now (manual_entry user st s e h) rows =
     (if in_int4 (Math_round h) \<and> in_int4 (epoch_minutes (toISOString e) (toISOString s))
      then Inr ((manual_entry user st s e h)\<lparr>row_id := length rows,
                   duration_minutes := Some (epoch_minutes (toISOString e) (toISOString s)),
                   is_running := Some False\<rparr>,
                rows @ [(manual_entry user st s e h)\<lparr>row_id := length rows,
                   duration_minutes := Some (epoch_minutes (toISOString e) (toISOString s)),
                   is_running := Some False\<rparr>])
      else Inl numeric_value_out_of_range)"
    by (rule insert_ended_row) (simp_all add: manual_entry_def)
  with assms show ?thesis
    by (auto simp: manual_entry_def closed_entry_def row_ok_def split: if_splits)
qed

lemma handleSubmit_well_formed:
  assumes "handleSubmit now user st rows = (out, st', rows')" "well_formed rows"
  shows "well_formed rows'"
  using handleSubmit_rows[OF assms(1)] assms(2)
  by (auto dest!: manual_entry_inserted intro: well_formed_snoc)

lemma reachable_well_formed: "rows \<in> reachable \<Longrightarrow> well_formed rows"
proof (induction rule: reachable.induct)
  case init
  show ?case by (simp add: well_formed_def)
next
  case (start rows date_now now user st t st' rows')
  then show ?case by (blast intro: startTimer_well_formed)
next
  case (stop rows date_now now st t' st' rows')
  then show ?case by (blast intro: stopTimer_well_formed)
next
  case (recordManual rows now user form out form' rows')
  then show ?case by (blast intro: handleSubmit_well_formed)
next
  case (edit rows now i d c rows')
  then show ?case by (blast intro: update_time_entries_well_formed lifecycle_updates)
next
  case (close rows now i rows')
  then show ?case by (blast intro: update_time_entries_well_formed lifecycle_updates)
qed

subsection \<open>Rounding to the minute\<close>

lemma div_minute_bounds:
  fixes x :: int
  shows "60000000 * (x div 60000000) \<le> x" "x < 60000000 * (x div 60000000) + 60000000"
proof -
  have "x = 60000000 * (x div 60000000) + x mod 60000000" by simp
  moreover have "0 \<le> x mod 60000000" "x mod 60000000 < 60000000" by simp_all
  ultimately show "60000000 * (x div 60000000) \<le> x" "x < 60000000 * (x div 60000000) + 60000000"
    by linarith+
qed



lemma epoch_minutes_le_0: "e < s \<Longrightarrow> epoch_minutes e s \<le> 0"
  by (simp add: epoch_minutes_def Let_def)

lemma epoch_minutes_neg: "e + 30000000 \<le> s \<Longrightarrow> epoch_minutes e s < 0"
  using div_minute_bounds[of "s - e + 30000000"] by (simp add: epoch_minutes_def Let_def)




subsection \<open>Rows found by their identity\<close>

lemma update_time_entries_absent:
  assumes "i \<notin> row_id ` set rows"
  shows "update_time_entries now i u rows = Inr rows"
  using assms by (induction rows) auto

lemma update_time_entries_nth:
  assumes "distinct (map row_id rows)" "k < length rows" "row_id (rows ! k) = i"
  shows "update_time_entries now i u rows =
           (case update_row now u (rows ! k) of
              Inl err \<Rightarrow> Inl err | Inr r' \<Rightarrow> Inr (rows[k := r']))"
  using assms
proof (induction rows arbitrary: k)
  case Nil
  then show ?case by simp
next
  case (Cons r rs)
  show ?case
  proof (cases k)
    case 0
    with Cons.prems have "i \<notin> row_id ` set rs" by auto
    then have "update_time_entries now i u rs = Inr rs"
      by (rule update_time_entries_absent)
    with 0 Cons.prems show ?thesis by (simp split: sum.splits)
  next
    case (Suc j)
    with Cons.prems have "row_id r \<noteq> i" by auto
    moreover have "update_time_entries now i u rs =
           (case update_row now u (rs ! j) of
              Inl err \<Rightarrow> Inl err | Inr r' \<Rightarrow> Inr (rs[j := r']))"
      using Cons.prems Suc by (intro Cons.IH) auto
    ultimately show ?thesis using Suc by (simp split: sum.splits)
  qed
qed

lemma well_formed_ids:
  assumes "well_formed rows"
  shows "distinct (map row_id rows)" "k < length rows \<Longrightarrow> row_id (rows ! k) = k"
proof -
  have ids: "map row_id rows = [0 ..< length rows]"
    using assms by (simp add: well_formed_def)
  then show "distinct (map row_id rows)" by simp
  show "row_id (rows ! k) = k" if "k < length rows"
    using that nth_map[of k rows row_id] ids by simp
qed

lemma well_formed_lookup:
  assumes "well_formed rows"
  shows "lookup i rows = (if i < length rows then Some (rows ! i) else None)"
proof (cases "i < length rows")
  case True
  have "find (\<lambda>r. row_id r = i) rows = Some (rows ! i)"
    unfolding find_Some_iff
    using True well_formed_ids(2)[OF assms] by (intro exI[of _ i]) auto
  with True show ?thesis by (simp add: lookup_def)
next
  case False
  have "\<And>r. r \<in> set rows \<Longrightarrow> row_id r \<noteq> i"
    using False well_formed_ids(2)[OF assms] by (auto simp: in_set_conv_nth)
  then have "find (\<lambda>r. row_id r = i) rows = None"
    by (simp add: find_None_iff)
  with False show ?thesis by (simp add: lookup_def)
qed

lemma well_formed_row_ok:
  assumes "well_formed rows" "lookup i rows = Some r"
  shows "row_ok r" "i < length rows" "rows ! i = r" "row_id r = i"
proof -
  from assms show i: "i < length rows" and r: "rows ! i = r"
    by (auto simp: well_formed_lookup split: if_splits)
  from assms(1) have "list_all row_ok rows" by (simp add: well_formed_def)
  with i r show "row_ok r" by (auto simp: list_all_length)
  from i r well_formed_ids(2)[OF assms(1)] show "row_id r = i" by auto
qed

text \<open>An update of the lifecycle, at a row of a well-formed store.\<close>

lemma update_time_entries_found:
  assumes "well_formed rows" "lookup i rows = Some r"
  shows "update_time_entries now i u rows =
           (case update_row now u r of Inl err \<Rightarrow> Inl err | Inr r' \<Rightarrow> Inr (rows[i := r']))"
  using update_time_entries_nth[OF well_formed_ids(1)[OF assms(1)], of i i now u]
    well_formed_row_ok(2,3,4)[OF assms] by simp

lemma lookup_updated:
  assumes "well_formed rows" "lookup i rows = Some r" "update_row now u r = Inr r'"
    "lifecycle_update u"
  shows "update_time_entries now i u rows = Inr (rows[i := r'])"
    and "lookup i (rows[i := r']) = Some r'"
proof -
  show upd: "update_time_entries now i u rows = Inr (rows[i := r'])"
    using update_time_entries_found[OF assms(1,2), of now u] assms(3) by simp
  have "well_formed (rows[i := r'])"
    by (rule update_time_entries_well_formed[OF upd assms(4,1)])
  then show "lookup i (rows[i := r']) = Some r'"
    using well_formed_row_ok(2)[OF assms(1,2)] by (simp add: well_formed_lookup)
qed


subsection \<open>Stopping and closing a row\<close>

lemma update_row_stop:
  assumes "row_ok r" "start_time r = Some s"
  shows "update_row now (stop_update t d) r =
     (if in_int4 (epoch_minutes (toISOString t) s)
      then Inr ((apply_update (stop_update t d) r)
                  \<lparr>duration_minutes := Some (epoch_minutes (toISOString t) s),
                   is_running := Some False\<rparr>)
      else Inl numeric_value_out_of_range)"
proof -
  have "end_time (apply_update (stop_update t d) r) = Some (toISOString t)"
    by (simp add: apply_update_fields stop_update_def no_update_def assign_simps)
  then show ?thesis
    unfolding update_row_cases[OF lifecycle_updates(1) assms] by simp
qed

lemma stop_update_fields:
  "end_time (apply_update (stop_update t d) r) = Some (toISOString t)"
  "start_time (apply_update (stop_update t d) r) = start_time r"
  "description (apply_update (stop_update t d) r) = Some d"
  "category (apply_update (stop_update t d) r) = category r"
  by (simp_all add: apply_update_fields stop_update_def no_update_def assign_simps)



lemma update_row_edit_closed:
  assumes "row_ok r" "is_running r = Some False"
  shows "update_row now (edit_update d c) r =
           Inr (r\<lparr>category := assign c (category r), description := assign d (description r)\<rparr>)"
proof -
  from assms have cl: "closed_entry r"
    by (auto simp: row_ok_def open_entry_def)
  then obtain e s where es: "end_time r = Some e" "start_time r = Some s"
      "duration_minutes r = Some (epoch_minutes e s)"
    by (rule closed_entryD)
  have range: "in_int4 (epoch_minutes e s)"
    using assms(1) es by (simp add: row_ok_def)
  have ap: "apply_update (edit_update d c) r =
          r\<lparr>category := assign c (category r), description := assign d (description r)\<rparr>"
    by (simp add: apply_update_def edit_update_def no_update_def assign_simps)
  have "end_time (apply_update (edit_update d c) r) = Some e"
    using es by (simp add: ap)
  then show ?thesis
    unfolding update_row_cases[OF lifecycle_updates(2) assms(1) es(2)]
    using range es assms(2) by (simp add: ap)
qed

lemma stopTimer_stops:
  assumes wf: "well_formed rows" and a: "activeEntry st = Some a"
    and r: "lookup (row_id a) rows = Some r" and s: "start_time r = Some s"
    and range: "in_int4 (epoch_minutes (toISOString t) s)"
  shows "\<exists>r'. stopTimer t now st rows =
                (Some Timer_stopped,
                 st\<lparr>activeEntry := None, elapsedTime := 0, description_field := ''''\<rparr>,
                 rows[row_id a := r'])
            \<and> lookup (row_id a) (rows[row_id a := r']) = Some r'
            \<and> start_time r' = Some s
            \<and> end_time r' = Some (toISOString t)
            \<and> duration_minutes r' = Some (epoch_minutes (toISOString t) s)
            \<and> is_running r' = Some False"
proof -
  let ?u = "stop_update t (description_field st)"
  let ?r' = "(apply_update ?u r)\<lparr>duration_minutes := Some (epoch_minutes (toISOString t) s),
                                  is_running := Some False\<rparr>"
  have ok: "row_ok r" by (rule well_formed_row_ok(1)[OF wf r])
  have upd: "update_row now ?u r = Inr ?r'"
    using range by (simp add: update_row_stop[OF ok s])
  note found = lookup_updated[OF wf r upd lifecycle_updates(1)]
  have "stopTimer t now st rows =
          (Some Timer_stopped,
           st\<lparr>activeEntry := None, elapsedTime := 0, description_field := ''''\<rparr>,
           rows[row_id a := ?r'])"
    using a found(1) by (simp add: stopTimer_def)
  moreover have "start_time ?r' = Some s" "end_time ?r' = Some (toISOString t)"
    using s by (simp_all add: stop_update_fields)
  ultimately show ?thesis
    using found(2) by (intro exI[of _ ?r']) simp
qed


lemma demo_start:
  "startTimer 60000 now ''u1'' demo_tracker [] = (Timer_started, demo_active, [demo_running])"
  by (simp add: startTimer_def demo_tracker_def demo_active_def demo_running_def
      TimeTracker_mount_def started_entry_def insert_running_row or_null_def toISOString_def)

lemma demo_running_reachable: "[demo_running] \<in> reachable"
  using reachable.start[OF reachable.init demo_start] .

lemma demo_lookup: "lookup 0 [demo_running] = Some demo_running"
  by (simp add: lookup_def demo_running_def)

section \<open>Starting a timer\<close>

text \<open>
  C8. Started with a project selected, the timer stores one new entry whose start is the
  current instant, with \<open>is_running = true\<close>, no end and no duration, and the component
  holds the stored entry, identity included, as its active entry.
\<close>

theorem C8_startTimer_creates_running_entry:
  assumes "selectedProject st \<noteq> ''''"
  shows "\<exists>data. startTimer date_now now user st rows
                  = (Timer_started, st\<lparr>activeEntry := Some data\<rparr>, rows @ [data])
              \<and> row_id data = length rows
              \<and> user_id data = user
              \<and> project_id data = selectedProject st
              \<and> start_time data = Some (toISOString date_now)
              \<and> is_running data = Some True
              \<and> end_time data = None
              \<and> duration_minutes data = None"
  using assms by (simp add: startTimer_def started_entry_def insert_running_row)

theorem C8_startTimer_witness:
  "\<exists>data. startTimer 5000 5000123 ''u1'' (TimeTracker_mount\<lparr>selectedProject := ''p1''\<rparr>) []
            = (Timer_started,
               TimeTracker_mount\<lparr>selectedProject := ''p1'', activeEntry := Some data\<rparr>, [data])
        \<and> row_id data = 0
        \<and> start_time data = Some 5000000
        \<and> is_running data = Some True
        \<and> end_time data = None
        \<and> duration_minutes data = None"
  using C8_startTimer_creates_running_entry
          [of "TimeTracker_mount\<lparr>selectedProject := ''p1''\<rparr>" 5000 5000123 "''u1''" "[]"]
  by (auto simp add: TimeTracker_mount_def toISOString_def)

section \<open>Stopping twice\<close>



section \<open>Stopping before the start\<close>

text \<open>
  C4, as the specification has it, fails: an entry started at 00:01:00 and stopped by a
  clock that reads 00:00:00 is stored closed, with a duration of minus one minute.
\<close>

theorem C4_counterexample:
  "stopTimer 0 0 demo_active [demo_running] =
     (Some Timer_stopped,
      demo_tracker\<lparr>activeEntry := None, elapsedTime := 0, description_field := ''''\<rparr>,
      [demo_stopped_early])"
  by (simp add: stopTimer_def demo_active_def demo_tracker_def demo_running_def
      demo_stopped_early_def TimeTracker_mount_def stop_update_def no_update_def
      update_row_def apply_update_def assign_def int4_col_def int4_def in_int4_def
      calculate_time_entry_duration_def duration_if_ended_def end_now_if_stopped_def
      check_not_null_def toISOString_def epoch_minutes_def)

text \<open>
  C4, amended. A stop whose end instant lies before the start is not turned away: as
  long as the duration fits the \<open>INTEGER\<close> column the entry is stored closed, with that
  end, \<open>is_running = false\<close> and the rounded duration, which is zero or negative, and
  negative as soon as the end is half a minute or more before the start.
\<close>

theorem C4_stop_before_start_is_stored:
  assumes "rows \<in> reachable" and "activeEntry st = Some a"
    and "lookup (row_id a) rows = Some r" and "is_running r = Some True"
    and "start_time r = Some s" and "toISOString t < s"
    and "in_int4 (epoch_minutes (toISOString t) s)"
  shows "\<exists>st1 rows1 r1.
           stopTimer t now st rows = (Some Timer_stopped, st1, rows1)
         \<and> lookup (row_id a) rows1 = Some r1
         \<and> end_time r1 = Some (toISOString t)
         \<and> duration_minutes r1 = Some (epoch_minutes (toISOString t) s)
         \<and> is_running r1 = Some False
         \<and> epoch_minutes (toISOString t) s \<le> 0
         \<and> (toISOString t + 30000000 \<le> s \<longrightarrow> epoch_minutes (toISOString t) s < 0)"
proof -
  have wf: "well_formed rows" by (rule reachable_well_formed[OF assms(1)])
  from stopTimer_stops[OF wf assms(2,3,5,7), of now] obtain r' where
    "stopTimer t now st rows =
           (Some Timer_stopped,
            st\<lparr>activeEntry := None, elapsedTime := 0, description_field := ''''\<rparr>,
            rows[row_id a := r'])"
      "lookup (row_id a) (rows[row_id a := r']) = Some r'"
      "end_time r' = Some (toISOString t)"
      "duration_minutes r' = Some (epoch_minutes (toISOString t) s)"
      "is_running r' = Some False"
    by blast
  moreover have "epoch_minutes (toISOString t) s \<le> 0"
    by (rule epoch_minutes_le_0[OF assms(6)])
  moreover have "toISOString t + 30000000 \<le> s \<longrightarrow> epoch_minutes (toISOString t) s < 0"
    by (simp add: epoch_minutes_neg)
  ultimately show ?thesis by blast
qed

theorem C4_stop_before_start_witness:
  "[demo_running] \<in> reachable \<and> activeEntry demo_active = Some demo_running
   \<and> lookup (row_id demo_running) [demo_running] = Some demo_running
   \<and> is_running demo_running = Some True
   \<and> start_time demo_running = Some 60000000
   \<and> toISOString 0 < 60000000
   \<and> in_int4 (epoch_minutes (toISOString 0) 60000000)
   \<and> (\<exists>st1 rows1 r1.
           stopTimer 0 0 demo_active [demo_running] = (Some Timer_stopped, st1, rows1)
         \<and> lookup (row_id demo_running) rows1 = Some r1
         \<and> end_time r1 = Some 0
         \<and> duration_minutes r1 = Some (- 1)
         \<and> is_running r1 = Some False)"
proof -
  have h: "activeEntry demo_active = Some demo_running"
      "lookup (row_id demo_running) [demo_running] = Some demo_running"
      "is_running demo_running = Some True" "start_time demo_running = Some 60000000"
      "toISOString 0 < 60000000"
      "in_int4 (epoch_minutes (toISOString 0) 60000000)"
    by (simp_all add: demo_active_def demo_running_def lookup_def in_int4_def
        epoch_minutes_def toISOString_def)
  have v: "toISOString 0 = 0" "epoch_minutes 0 60000000 = - 1"
    by (simp_all add: epoch_minutes_def toISOString_def)
  show ?thesis
    using C4_stop_before_start_is_stored[OF demo_running_reachable h, of 0] h
      demo_running_reachable
    by (simp add: v)
qed

section \<open>Closing without an end instant\<close>



lemma demo_stop:
  "stopTimer 5460000 now demo_active [demo_running] =
     (Some Timer_stopped,
      demo_tracker\<lparr>activeEntry := None, elapsedTime := 0, description_field := ''''\<rparr>,
      [demo_stopped])"
  by (simp add: stopTimer_def demo_active_def demo_tracker_def demo_running_def
      demo_stopped_def TimeTracker_mount_def stop_update_def no_update_def
      update_row_def apply_update_def assign_def int4_col_def int4_def in_int4_def
      calculate_time_entry_duration_def duration_if_ended_def end_now_if_stopped_def
      check_not_null_def toISOString_def epoch_minutes_def)


section \<open>Running entries have no end and no duration\<close>

text \<open>
  C6. In every store the lifecycle operations can produce, an entry with
  \<open>is_running = true\<close> has neither an end instant nor a duration.
\<close>

theorem C6_I1_in_every_reachable_store:
  assumes "rows \<in> reachable"
  shows "list_all I1 rows"
proof -
  have "list_all row_ok rows"
    using reachable_well_formed[OF assms] by (simp add: well_formed_def)
  moreover have "I1 r" if "row_ok r" for r
    using that by (auto simp: row_ok_def I1_def open_entry_def elim: closed_entryD)
  ultimately show ?thesis
    by (auto simp: list_all_iff)
qed

theorem C6_I1_witness:
  "[demo_running] \<in> reachable \<and> is_running demo_running = Some True
   \<and> end_time demo_running = None \<and> duration_minutes demo_running = None"
  using C6_I1_in_every_reachable_store[OF demo_running_reachable] demo_running_reachable
  by (simp add: I1_def demo_running_def)

section \<open>Editing a closed entry\<close>

lemma demo_stopped_reachable: "[demo_stopped] \<in> reachable"
  using reachable.stop[OF demo_running_reachable demo_stop] .

text \<open>
  C9. In every store the lifecycle operations can produce, an update of a closed entry
  that sets only the description or the category succeeds and leaves the start, the
  end, the duration and \<open>is_running = false\<close> as they were.
\<close>

theorem C9_edit_leaves_closed_entry_closed:
  assumes "rows \<in> reachable" and "lookup i rows = Some r" and "is_running r = Some False"
  shows "\<exists>rows' r'.
           update_time_entries now i (edit_update d c) rows = Inr rows'
         \<and> lookup i rows' = Some r'
         \<and> start_time r' = start_time r
         \<and> end_time r' = end_time r \<and> end_time r \<noteq> None
         \<and> duration_minutes r' = duration_minutes r \<and> duration_minutes r \<noteq> None
         \<and> is_running r' = Some False
         \<and> description r' = assign d (description r)
         \<and> category r' = assign c (category r)"
proof -
  have wf: "well_formed rows" by (rule reachable_well_formed[OF assms(1)])
  have ok: "row_ok r" by (rule well_formed_row_ok(1)[OF wf assms(2)])
  let ?r' = "r\<lparr>category := assign c (category r), description := assign d (description r)\<rparr>"
  have upd: "update_row now (edit_update d c) r = Inr ?r'"
    by (rule update_row_edit_closed[OF ok assms(3)])
  note edited = lookup_updated[OF wf assms(2) upd lifecycle_updates(2)]
  from ok assms(3) have "closed_entry r"
    by (auto simp: row_ok_def open_entry_def)
  then have "end_time r \<noteq> None" "duration_minutes r \<noteq> None"
    by (auto elim: closed_entryD)
  then show ?thesis
    using edited assms(3) by (intro exI[of _ "rows[i := ?r']"] exI[of _ ?r']) simp
qed

theorem C9_edit_witness:
  "[demo_stopped] \<in> reachable \<and> lookup 0 [demo_stopped] = Some demo_stopped
   \<and> is_running demo_stopped = Some False
   \<and> (\<exists>rows' r'.
           update_time_entries 7 0 (edit_update (Some (Some ''review'')) (Some (Some Study)))
             [demo_stopped] = Inr rows'
         \<and> lookup 0 rows' = Some r'
         \<and> start_time r' = Some 60000000
         \<and> end_time r' = Some 5460000000
         \<and> duration_minutes r' = Some 90
         \<and> is_running r' = Some False
         \<and> description r' = Some ''review''
         \<and> category r' = Some Study)"
proof -
  have h: "lookup 0 [demo_stopped] = Some demo_stopped" "is_running demo_stopped = Some False"
    by (simp_all add: lookup_def demo_stopped_def)
  show ?thesis
    using C9_edit_leaves_closed_entry_closed[OF demo_stopped_reachable h,
        of 7 "Some (Some ''review'')" "Some (Some Study)"] h demo_stopped_reachable
    by (simp add: demo_stopped_def assign_def)
qed

section \<open>One running entry for each owner\<close>

lemma running_entries_updated:
  assumes "update_time_entries now i u rows = Inr rows'" "lifecycle_update u" "list_all row_ok rows"
  shows "length (running_entries usr rows') \<le> length (running_entries usr rows)"
proof -
  have "list_all2 (row_updated now i u) rows rows'"
    by (rule update_time_entries_all[OF assms(1)])
  then show ?thesis using assms(3)
  proof (induction rule: list_all2_induct)
    case Nil
    then show ?case by simp
  next
    case (Cons x xs y ys)
    have ok: "row_ok x" using Cons.prems by simp
    have "user_id y = user_id x" "is_running y = Some True \<Longrightarrow> is_running x = Some True"
      using row_updated_keeps(2,4)[OF Cons.hyps(1) assms(2) ok] by auto
    moreover have "length (running_entries usr ys) \<le> length (running_entries usr xs)"
      using Cons by simp
    ultimately show ?case
      by (auto simp: running_entries_def)
  qed
qed

lemma running_entries_snoc:
  "running_entries usr (rows @ [r]) =
     running_entries usr rows @ (if user_id r = usr \<and> is_running r = Some True then [r] else [])"
  by (simp add: running_entries_def)

lemma one_timer_reachable: "rows \<in> one_timer \<Longrightarrow> rows \<in> reachable"
  by (induction rule: one_timer.induct) (auto intro: reachable.intros)

lemma I4_I:
  assumes "\<And>usr. length (running_entries usr rows) \<le> 1"
  shows "I4 rows"
  using assms by (simp add: I4_def list_all_iff)

lemma one_timer_counts:
  assumes "rows \<in> one_timer"
  shows "length (running_entries usr rows) \<le> 1"
  using assms
proof (induction arbitrary: usr rule: one_timer.induct)
  case init
  show ?case by (simp add: running_entries_def)
next
  case (start rows user date_now now st t st' rows')
  from startTimer_rows[OF start.hyps(3)] show ?case
  proof
    assume "rows' = rows"
    with start.IH show ?thesis by simp
  next
    assume eq: "rows' = rows @ [(started_entry date_now user st)\<lparr>row_id := length rows\<rparr>]"
    show ?thesis
    proof (cases "usr = user")
      case True
      with eq start.hyps(2) show ?thesis by (simp add: running_entries_snoc)
    next
      case False
      with eq start.IH[of usr] show ?thesis
        by (simp add: running_entries_snoc started_entry_def)
    qed
  qed
next
  case (stop rows date_now now st t' st' rows')
  have ok: "list_all row_ok rows"
    using reachable_well_formed[OF one_timer_reachable[OF stop.hyps(1)]]
    by (simp add: well_formed_def)
  from stopTimer_rows[OF stop.hyps(2)] show ?case
  proof
    assume "rows' = rows"
    with stop.IH show ?thesis by simp
  next
    assume "\<exists>a. activeEntry st = Some a \<and>
              update_time_entries now (row_id a) (stop_update date_now (description_field st)) rows
                = Inr rows'"
    then obtain a :: time_entry where
      "update_time_entries now (row_id a) (stop_update date_now (description_field st)) rows
         = Inr rows'" by blast
    from running_entries_updated[OF this lifecycle_updates(1) ok, of usr] stop.IH[of usr]
    show ?thesis by simp
  qed
next
  case (recordManual rows now user form out form' rows')
  from handleSubmit_rows[OF recordManual.hyps(2)] show ?case
  proof
    assume "rows' = rows"
    with recordManual.IH show ?thesis by simp
  next
    assume "\<exists>s e h data. insert_time_entry now (manual_entry user form s e h) rows = Inr (data, rows')"
    then obtain s e h data where
      "insert_time_entry now (manual_entry user form s e h) rows = Inr (data, rows')" by blast
    from manual_entry_inserted[OF this] have "rows' = rows @ [data]" "closed_entry data"
      by simp_all
    then have "running_entries usr rows' = running_entries usr rows"
      by (auto simp: running_entries_snoc elim: closed_entryD)
    with recordManual.IH[of usr] show ?thesis by simp
  qed
next
  case (edit rows now i d c rows')
  have ok: "list_all row_ok rows"
    using reachable_well_formed[OF one_timer_reachable[OF edit.hyps(1)]]
    by (simp add: well_formed_def)
  from running_entries_updated[OF edit.hyps(2) lifecycle_updates(2) ok, of usr] edit.IH[of usr]
  show ?case by simp
next
  case (close rows now i rows')
  have ok: "list_all row_ok rows"
    using reachable_well_formed[OF one_timer_reachable[OF close.hyps(1)]]
    by (simp add: well_formed_def)
  from running_entries_updated[OF close.hyps(2) lifecycle_updates(3) ok, of usr] close.IH[of usr]
  show ?case by simp
qed

lemma demo_start_again:
  "startTimer 120000 now ''u1'' demo_tracker [demo_running] =
     (Timer_started, demo_tracker\<lparr>activeEntry := Some demo_second\<rparr>, [demo_running, demo_second])"
  by (simp add: startTimer_def demo_tracker_def demo_second_def
      TimeTracker_mount_def started_entry_def insert_running_row or_null_def toISOString_def)

text \<open>
  C7, as the specification has it, fails. A component that has just been mounted has
  no active entry until \<open>loadActiveTimeEntry\<close> has answered, so it shows the start
  button; \<open>startTimer\<close> looks for no running entry. Started from such a component
  while the owner's first entry is running, it stores a second running entry. From
  then on \<open>loadActiveTimeEntry\<close> finds two rows and leaves the component without an
  active entry, so the start button stays.
\<close>

theorem C7_counterexample:
  "activeEntry demo_tracker = None
   \<and> startTimer 120000 0 ''u1'' demo_tracker [demo_running] =
        (Timer_started, demo_tracker\<lparr>activeEntry := Some demo_second\<rparr>,
         [demo_running, demo_second])
   \<and> [demo_running, demo_second] \<in> reachable
   \<and> running_entries ''u1'' [demo_running, demo_second] = [demo_running, demo_second]
   \<and> \<not> I4 [demo_running, demo_second]
   \<and> loadActiveTimeEntry ''u1'' demo_tracker [demo_running, demo_second] = demo_tracker"
proof -
  have "[demo_running, demo_second] \<in> reachable"
    using reachable.start[OF demo_running_reachable demo_start_again] .
  moreover have "running_entries ''u1'' [demo_running, demo_second] = [demo_running, demo_second]"
    by (simp add: running_entries_def demo_running_def demo_second_def)
  moreover have "user_id demo_running = ''u1''"
    by (simp add: demo_running_def)
  ultimately have "\<not> I4 [demo_running, demo_second]"
    by (simp add: I4_def)
  moreover have "activeEntry demo_tracker = None"
    by (simp add: demo_tracker_def TimeTracker_mount_def)
  moreover have "loadActiveTimeEntry ''u1'' demo_tracker [demo_running, demo_second] = demo_tracker"
    using \<open>running_entries ''u1'' [demo_running, demo_second] = [demo_running, demo_second]\<close>
    by (simp add: loadActiveTimeEntry_def)
  moreover note demo_start_again[of 0]
    \<open>[demo_running, demo_second] \<in> reachable\<close>
    \<open>running_entries ''u1'' [demo_running, demo_second] = [demo_running, demo_second]\<close>
  ultimately show ?thesis by blast
qed

text \<open>
  C7, amended. I4 holds in every store reached by lifecycle operations in which each
  start is issued while its owner has no running entry in the store: such a start
  leaves the owner with one running entry, and no other operation adds one.
\<close>

theorem C7_I4_when_starts_find_no_running_entry:
  assumes "rows \<in> one_timer"
  shows "I4 rows"
  by (rule I4_I) (rule one_timer_counts[OF assms])

theorem C7_I4_witness:
  "[demo_running] \<in> one_timer \<and> length (running_entries ''u1'' [demo_running]) \<le> 1"
proof -
  have "running_entries ''u1'' [] = []" by (simp add: running_entries_def)
  from one_timer.start[OF one_timer.init this demo_start]
  have r: "[demo_running] \<in> one_timer" .
  from C7_I4_when_starts_find_no_running_entry[OF r] r show ?thesis
    by (simp add: I4_def demo_running_def)
qed

section \<open>Reports count closed entries only\<close>

lemma loadTimeEntries_skips:
  assumes "duration_minutes r = None"
  shows "loadTimeEntries user date_from date_to project (xs @ r # ys)
           = loadTimeEntries user date_from date_to project (xs @ ys)"
  using assms by (simp add: loadTimeEntries_def)

lemma stats_entries_skips:
  assumes "duration_minutes r = None"
  shows "stats_entries user since (xs @ r # ys) = stats_entries user since (xs @ ys)"
  using assms by (simp add: stats_entries_def)

lemma loadTimeEntries_have_duration:
  "list_all (\<lambda>e. duration_minutes e \<noteq> None) (loadTimeEntries user date_from date_to project rows)"
  by (simp add: loadTimeEntries_def newest_first_def list_all_iff)

text \<open>
  C10. The entries a report is computed from all have a duration; and an entry without
  one, wherever it stands in the store, changes nothing in the list of entries of the
  report, the total of hours, the sums for each project and for each day, the rows of
  the export, or the dashboard's hours of today and of the week.
\<close>

theorem C10_reports_range_over_entries_with_duration:
  assumes "duration_minutes r = None"
  shows "list_all (\<lambda>e. duration_minutes e \<noteq> None)
           (loadTimeEntries user date_from date_to project (xs @ r # ys))
       \<and> r \<notin> set (loadTimeEntries user date_from date_to project (xs @ r # ys))
       \<and> getTotalHours (loadTimeEntries user date_from date_to project (xs @ r # ys))
           = getTotalHours (loadTimeEntries user date_from date_to project (xs @ ys))
       \<and> getProjectChartData projects (loadTimeEntries user date_from date_to project (xs @ r # ys))
           = getProjectChartData projects (loadTimeEntries user date_from date_to project (xs @ ys))
       \<and> getDailyChartData fmt (loadTimeEntries user date_from date_to project (xs @ r # ys))
           = getDailyChartData fmt (loadTimeEntries user date_from date_to project (xs @ ys))
       \<and> exportToCsv fmt projects tasks (loadTimeEntries user date_from date_to project (xs @ r # ys))
           = exportToCsv fmt projects tasks (loadTimeEntries user date_from date_to project (xs @ ys))
       \<and> loadStats user startOfDay startOfWeek (xs @ r # ys)
           = loadStats user startOfDay startOfWeek (xs @ ys)"
proof -
  have "r \<notin> set (loadTimeEntries user date_from date_to project (xs @ r # ys))"
    using assms loadTimeEntries_have_duration[of user date_from date_to project "xs @ r # ys"]
    by (auto simp: list_all_iff)
  then show ?thesis
    using loadTimeEntries_have_duration[of user date_from date_to project "xs @ r # ys"]
    by (simp add: loadTimeEntries_skips[OF assms] stats_entries_skips[OF assms] loadStats_def)
qed

theorem C10_reports_witness:
  "duration_minutes demo_second = None
   \<and> loadTimeEntries ''u1'' 0 9000000 ''all'' ([demo_stopped] @ demo_second # []) = [demo_stopped]
   \<and> getTotalHours (loadTimeEntries ''u1'' 0 9000000 ''all'' ([demo_stopped] @ demo_second # [])) = 3 / 2
   \<and> loadStats ''u1'' 0 0 ([demo_stopped] @ demo_second # []) = (3 / 2, 3 / 2)"
proof -
  have h: "duration_minutes demo_second = None"
    by (simp add: demo_second_def)
  have l: "loadTimeEntries ''u1'' 0 9000000 ''all'' ([demo_stopped] @ []) = [demo_stopped]"
    by (simp add: loadTimeEntries_def newest_first_def demo_stopped_def starts_from_def
        starts_until_def toISOString_def)
  have t: "getTotalHours [demo_stopped] = 3 / 2"
    by (simp add: getTotalHours_def demo_stopped_def or_zero_def)
  have s: "loadStats ''u1'' 0 0 ([demo_stopped] @ []) = (3 / 2, 3 / 2)"
    by (simp add: loadStats_def stats_entries_def stats_hours_def demo_stopped_def
        starts_from_def toISOString_def or_zero_def)
  from C10_reports_range_over_entries_with_duration[OF h, of "''u1''" 0 9000000 "''all''"
      "[demo_stopped]" "[]" _ _ _ 0 0]
  have "getTotalHours (loadTimeEntries ''u1'' 0 9000000 ''all'' ([demo_stopped] @ demo_second # []))
          = getTotalHours (loadTimeEntries ''u1'' 0 9000000 ''all'' ([demo_stopped] @ []))"
    and "loadStats ''u1'' 0 0 ([demo_stopped] @ demo_second # []) = loadStats ''u1'' 0 0 ([demo_stopped] @ [])"
    by blast+
  moreover have "loadTimeEntries ''u1'' 0 9000000 ''all'' ([demo_stopped] @ demo_second # [])
                   = loadTimeEntries ''u1'' 0 9000000 ''all'' ([demo_stopped] @ [])"
    by (rule loadTimeEntries_skips[OF h])
  ultimately show ?thesis
    using h l t s by simp
qed

section \<open>Manual entries\<close>








subsection \<open>The states of the form\<close>











subsection \<open>The demonstration forms\<close>

lemma demo_mount:
  "ManualTimeEntry_mount d =
     \<lparr>mt_selectedProject = '''', mt_selectedTask = '''', mt_description = '''',
      date = Some d, startTime = Some 540, endTime = Some 600, duration = Some 1,
      entryMode = time_range, loading = False\<rparr>"
  by (simp add: ManualTimeEntry_mount_def recalc_duration_def new_Date_def toFixed2_def)


lemma demo_form_backwards_eq:
  "demo_form_backwards =
     \<lparr>mt_selectedProject = ''p1'', mt_selectedTask = '''', mt_description = '''',
      date = Some 0, startTime = Some 540, endTime = Some 480, duration = Some 1,
      entryMode = time_range, loading = False\<rparr>"
  by (simp add: demo_form_backwards_def demo_mount setEndTime_def setSelectedProject_def
      recalc_duration_def new_Date_def)



lemma demo_forms_reachable:
  "demo_form \<in> form_states" "demo_form_backwards \<in> form_states"
  "demo_form_equal \<in> form_states" "demo_form_1969 \<in> form_states"
proof -
  have p: "setSelectedProject ''p1'' (ManualTimeEntry_mount d) \<in> form_states" for d
    by (intro form_states.intros)
  show "demo_form \<in> form_states" "demo_form_backwards \<in> form_states"
    "demo_form_equal \<in> form_states"
    unfolding demo_form_def demo_form_backwards_def demo_form_equal_def
    by (intro form_states.pick_end p)+
  have "entryMode (setEntryMode duration_only
          (setDate (Some (- 86400000))
             (setSelectedProject ''p1'' (ManualTimeEntry_mount 0)))) = duration_only"
    by (simp add: demo_mount setEntryMode_def setSelectedProject_def setDate_def
        recalc_duration_def new_Date_def)
  then show "demo_form_1969 \<in> form_states"
    unfolding demo_form_1969_def
    by (intro form_states.type_duration form_states.mode form_states.pick_date p)
qed


lemma demo_submit_backwards:
  "handleSubmit now ''u1'' demo_form_backwards [] =
     (Toast Time_entry_added, reset_form demo_form_backwards, [demo_backwards])"
  by (simp add: demo_form_backwards_eq handleSubmit_def startDateTime_def endDateTime_def
      new_Date_def manual_entry_def Math_round_def toISOString_def or_null_def
      insert_ended_row in_int4_def epoch_minutes_def demo_backwards_def)




section \<open>A manual entry that ends before it starts\<close>

text \<open>
  C2 holds of the form only while its duration field is empty. With the defaults of
  the form (09:00 to 10:00, so a duration field of one hour) and the end then moved to
  08:00, the effect leaves the duration field as it was, \<open>handleSubmit\<close> finds a
  positive duration and inserts the entry: a row from 09:00 back to 08:00, for which
  the trigger stores minus sixty minutes.
\<close>

theorem C2_end_before_start_is_inserted:
  "demo_form_backwards \<in> form_states
   \<and> startDateTime demo_form_backwards = Some 32400000
   \<and> endDateTime demo_form_backwards 60 = Some 28800000
   \<and> duration demo_form_backwards = Some 1
   \<and> handleSubmit 0 ''u1'' demo_form_backwards [] =
        (Toast Time_entry_added, reset_form demo_form_backwards, [demo_backwards])
   \<and> start_time demo_backwards = Some 32400000000 \<and> end_time demo_backwards = Some 28800000000
   \<and> duration_minutes demo_backwards = Some (- 60)"
  by (simp add: demo_forms_reachable demo_submit_backwards)
     (simp add: demo_form_backwards_eq startDateTime_def endDateTime_def new_Date_def
        demo_backwards_def)

section \<open>The duration of an entry, in its three computations\<close>






end
